theory Spec2Isabelle
  imports Main
begin

text \<open>
  A model of three parts of solid-aria: the reactive collection of items, the chaining of
  event handlers, and the keydown handler of a selectable collection with the attributes
  derived for its element. The definitions follow the TypeScript sources function by
  function; the properties proved of them come after all definitions.
\<close>

section \<open>Collection (packages/collection/src/createCollection.ts)\<close>

text \<open>
  An \<open>Item\<close> of the collection (types.ts). The DOM element behind \<open>ref\<close> is named by a
  number; the accessor \<open>isDisabled\<close> is read as its current value. JavaScript compares
  objects by reference (\<open>Array.prototype.indexOf\<close> uses \<open>===\<close>), so the record carries the
  identity of the object in \<open>oid\<close>: two item objects with the same fields are still two
  values, and equality of records is equality of references. A character of a
  \<open>string\<close> stands for one UTF-16 code unit of the JavaScript string.
\<close>

record item =
  oid :: nat
  key :: string
  textValue :: string
  ref :: nat
  isDisabled :: bool

text \<open>
  An \<open>Intl.Collator\<close>, as far as the collection uses it: its \<open>compare\<close> method, which
  returns a negative number, zero or a positive number.
\<close>

record collator =
  compare :: "string \<Rightarrow> string \<Rightarrow> int"

text \<open>
  The state of a collection is the value of its signal \<open>items\<close>; every operation below
  takes it as first argument, and the two setters return the new value. Numbers that
  are used as indices are modelled as integers.
\<close>

definition keys :: "item list \<Rightarrow> string list" where
  "keys items = map key items"

definition isCollectionEmpty :: "item list \<Rightarrow> bool" where
  "isCollectionEmpty items = (int (length items) \<le> 0)"

definition addItem :: "item list \<Rightarrow> item \<Rightarrow> item list" where
  "addItem prev it = prev @ [it]"

definition removeItem :: "item list \<Rightarrow> string \<Rightarrow> item list" where
  "removeItem prev k = filter (\<lambda>it. key it \<noteq> k) prev"

text \<open>\<open>items()[index] ?? null\<close>: an index outside the array reads \<open>undefined\<close>.\<close>

definition findByIndex :: "item list \<Rightarrow> int \<Rightarrow> item option" where
  "findByIndex items index =
     (if 0 \<le> index \<and> index < int (length items) then Some (items ! nat index) else None)"

definition findByKey :: "item list \<Rightarrow> string \<Rightarrow> item option" where
  "findByKey items k = find (\<lambda>it. key it = k) items"

text \<open>\<open>Array.prototype.findIndex\<close>: the first position whose element passes, or -1.\<close>

fun findIndex :: "('a \<Rightarrow> bool) \<Rightarrow> 'a list \<Rightarrow> int" where
  "findIndex P [] = - 1"
| "findIndex P (x # xs) =
     (if P x then 0 else (let r = findIndex P xs in if r < 0 then - 1 else r + 1))"

text \<open>
  The key is optional (\<open>key?: string\<close>); \<open>undefined\<close> is \<open>None\<close>, and no item's key is
  strictly equal to it.
\<close>

definition findIndexByKey :: "item list \<Rightarrow> string option \<Rightarrow> int" where
  "findIndexByKey items k = findIndex (\<lambda>it. Some (key it) = k) items"

text \<open>
  \<open>Array.prototype.slice(start, end)\<close>: a negative bound counts from the end, and both
  bounds are clamped to the array; \<open>None\<close> is an omitted \<open>end\<close>.
\<close>

definition relativeIndex :: "nat \<Rightarrow> int \<Rightarrow> nat" where
  "relativeIndex len i = (if i < 0 then nat (max (int len + i) 0) else min (nat i) len)"

definition slice :: "'a list \<Rightarrow> int \<Rightarrow> int option \<Rightarrow> 'a list" where
  "slice xs start end =
     (let k = relativeIndex (length xs) start;
          final = (case end of None \<Rightarrow> length xs | Some e \<Rightarrow> relativeIndex (length xs) e)
      in take (final - k) (drop k xs))"

text \<open>
  \<open>Array.prototype.indexOf\<close> on a value that may be \<open>undefined\<close> (\<open>matches[0]\<close> of an empty
  array): no item is \<open>undefined\<close>, so the answer is then -1.
\<close>

definition indexOf :: "'a list \<Rightarrow> 'a option \<Rightarrow> int" where
  "indexOf xs v = (case v of None \<Rightarrow> - 1 | Some x \<Rightarrow> findIndex (\<lambda>y. y = x) xs)"

text \<open>\<open>array[0]\<close>: the first element, or \<open>undefined\<close>.\<close>

definition first :: "'a list \<Rightarrow> 'a option" where
  "first xs = (case xs of [] \<Rightarrow> None | x # _ \<Rightarrow> Some x)"

text \<open>
  Modelled from the spec: \<open>filterItems\<close> of packages/collection/src/utils.ts, which is not
  among the sources. The spec (4.1) says that it keeps the "items whose textValue starts
  with filter (locale-aware, case-insensitive via the supplied collator)": an item passes
  when the collator compares the prefix of its text, as long as the filter, equal to the
  filter.
\<close>

definition startsWithFilter :: "collator \<Rightarrow> string \<Rightarrow> string \<Rightarrow> bool" where
  "startsWithFilter c text flt = (compare c (take (length flt) text) flt = 0)"

definition matchesFilter :: "collator \<Rightarrow> string \<Rightarrow> item \<Rightarrow> bool" where
  "matchesFilter c flt it = startsWithFilter c (textValue it) flt"

definition filterItems :: "item list \<Rightarrow> string \<Rightarrow> collator \<Rightarrow> item list" where
  "filterItems items flt c = filter (matchesFilter c flt) items"

text \<open>\<open>array.every(letter => letter === array[0])\<close>, true of the empty array.\<close>

fun allSameLetter :: "'a list \<Rightarrow> bool" where
  "allSameLetter [] = True"
| "allSameLetter (l # ls) = list_all (\<lambda>letter. letter = l) (l # ls)"

text \<open>
  \<open>filter[0]\<close> of the empty string is \<open>undefined\<close>, and \<open>findIndexBySearch\<close> hands it to
  \<open>filterItems\<close>. Filtering an empty array never looks at it; what \<open>filterItems\<close> does
  with an \<open>undefined\<close> filter on an item is outside its description, and is kept as a
  result of its own.
\<close>

datatype failure = UndefinedFilter

definition findIndexBySearch :: "item list \<Rightarrow> string \<Rightarrow> collator \<Rightarrow> int \<Rightarrow> failure + int" where
  "findIndexBySearch resolvedItems flt c startIndex =
     (let orderedItems = slice resolvedItems startIndex None @ slice resolvedItems 0 (Some startIndex);
          firstMatch = first (filterItems orderedItems flt c)
      in if firstMatch \<noteq> None then Inr (indexOf resolvedItems firstMatch)
         else if allSameLetter flt then
           (case flt of
              [] \<Rightarrow> (if orderedItems = [] then Inr (indexOf resolvedItems None) else Inl UndefinedFilter)
            | l # _ \<Rightarrow> Inr (indexOf resolvedItems (first (filterItems orderedItems [l] c))))
         else Inr (- 1))"

definition getFirstIndex :: "item list \<Rightarrow> int" where
  "getFirstIndex items = (if isCollectionEmpty items then - 1 else 0)"

definition getLastIndex :: "item list \<Rightarrow> int" where
  "getLastIndex items = (if isCollectionEmpty items then - 1 else int (length items) - 1)"

definition isFirstIndex :: "item list \<Rightarrow> int \<Rightarrow> bool" where
  "isFirstIndex items index = (if isCollectionEmpty items then False else index = getFirstIndex items)"

definition isLastIndex :: "item list \<Rightarrow> int \<Rightarrow> bool" where
  "isLastIndex items index = (if isCollectionEmpty items then False else index = getLastIndex items)"

text \<open>
  The order in which \<open>findIndexBySearch\<close> is described to search (spec 4.1): the items
  from position \<open>k\<close> on come first, then the items before \<open>k\<close>.
\<close>

definition wrapAroundOrder :: "'a list \<Rightarrow> nat \<Rightarrow> 'a list" where
  "wrapAroundOrder xs k = drop k xs @ take k xs"

text \<open>
  The start index is a JavaScript array index: a position of the collection, or a
  negative number that counts from the end, as \<open>relativeIndex\<close> reads it.
\<close>

definition searchOrder :: "'a list \<Rightarrow> int \<Rightarrow> 'a list" where
  "searchOrder xs startIndex = wrapAroundOrder xs (relativeIndex (length xs) startIndex)"

section \<open>Event handlers (packages/utils/src/handler.ts)\<close>

text \<open>
  What is mutable while one event is dispatched: the event's own \<open>defaultPrevented\<close> flag,
  extended by whatever else the handlers touch. The event \<open>'e\<close> handed to a handler is the
  same object at every call.
\<close>

record dispatch =
  defaultPrevented :: bool

text \<open>
  A \<open>JSX.EventHandlerUnion\<close> is a function of the event, or a bound pair
  \<open>[handler, data]\<close> called as \<open>handler(data, event)\<close>; \<open>undefined\<close> is \<open>None\<close>. A handler
  is its effect on the dispatch state.
\<close>

datatype ('d, 'e, 'w) eventHandler =
  Function "'e \<Rightarrow> 'w \<Rightarrow> 'w"
| Bound "'d \<Rightarrow> 'e \<Rightarrow> 'w \<Rightarrow> 'w" 'd

definition callHandler ::
  "('d, 'e, 'z dispatch_scheme) eventHandler option \<Rightarrow> 'e \<Rightarrow> 'z dispatch_scheme
     \<Rightarrow> bool \<times> 'z dispatch_scheme" where
  "callHandler handler event w =
     (let w' = (case handler of
                  None \<Rightarrow> w
                | Some (Function f) \<Rightarrow> f event w
                | Some (Bound f d) \<Rightarrow> f d event w)
      in (defaultPrevented w', w'))"

definition chainHandlers ::
  "('d, 'e, 'z dispatch_scheme) eventHandler option list \<Rightarrow> 'e \<Rightarrow> 'z dispatch_scheme
     \<Rightarrow> 'z dispatch_scheme" where
  "chainHandlers fns event w = fold (\<lambda>fn w'. snd (callHandler fn event w')) fns w"

text \<open>
  Calling one handler that was supplied, and the handlers of an argument list that are
  not \<open>undefined\<close>, in the order of the list.
\<close>

definition invoke :: "('d, 'e, 'w) eventHandler \<Rightarrow> 'e \<Rightarrow> 'w \<Rightarrow> 'w" where
  "invoke fn event = (case fn of Function f \<Rightarrow> f event | Bound f d \<Rightarrow> f d event)"

fun supplied :: "'a option list \<Rightarrow> 'a list" where
  "supplied [] = []"
| "supplied (None # fns) = supplied fns"
| "supplied (Some fn # fns) = fn # supplied fns"

text \<open>
  A dispatch state that keeps a trace, and a handler that does nothing but append its
  tag and the event it was called with: they make the calls of a chain observable.
\<close>

record 'e traced = dispatch +
  trace :: "(nat \<times> 'e) list"

definition tracing :: "nat \<Rightarrow> (unit, 'e, 'e traced) eventHandler" where
  "tracing tag = Function (\<lambda>event w. w\<lparr>trace := trace w @ [(tag, event)]\<rparr>)"

section \<open>Selectable collection (packages/selection/src/createSelectableCollection.ts)\<close>

datatype selectionMode = NoSelection | Single | Multiple

datatype selectionBehavior = Toggle | Replace

datatype focusStrategy = First | Last

text \<open>
  The selection manager is an object the caller supplies; its class is not among the
  sources. It is a parameter here: its state is any type \<open>'s\<close>, its accessors read the
  state and its methods return the new one. Keys are any type \<open>'k\<close>; an absent key
  (\<open>undefined\<close> or \<open>null\<close>, which \<open>!= null\<close> does not tell apart) is \<open>None\<close>.
\<close>

record ('k, 's) multipleSelectionManager =
  selectionMode :: "'s \<Rightarrow> selectionMode"
  selectionBehavior :: "'s \<Rightarrow> selectionBehavior"
  focusedKey :: "'s \<Rightarrow> 'k option"
  setFocusedKey :: "'k \<Rightarrow> focusStrategy option \<Rightarrow> 's \<Rightarrow> 's"
  extendSelection :: "'k \<Rightarrow> 's \<Rightarrow> 's"
  replaceSelection :: "'k \<Rightarrow> 's \<Rightarrow> 's"
  selectAll :: "'s \<Rightarrow> 's"
  clearSelection :: "'s \<Rightarrow> 's"

text \<open>
  The keyboard delegate: every method is optional, and the controller branches on its
  presence. \<open>getFirstKey\<close> and \<open>getLastKey\<close> take two optional arguments.
\<close>

record 'k keyboardDelegate =
  getKeyBelow :: "('k \<Rightarrow> 'k option) option"
  getKeyAbove :: "('k \<Rightarrow> 'k option) option"
  getKeyLeftOf :: "('k \<Rightarrow> 'k option) option"
  getKeyRightOf :: "('k \<Rightarrow> 'k option) option"
  getFirstKey :: "('k option \<Rightarrow> bool option \<Rightarrow> 'k option) option"
  getLastKey :: "('k option \<Rightarrow> bool option \<Rightarrow> 'k option) option"
  getKeyPageBelow :: "('k \<Rightarrow> 'k option) option"
  getKeyPageAbove :: "('k \<Rightarrow> 'k option) option"

text \<open>
  The props the keydown handler and the derived attributes read, as the values their
  accessors give when the handler runs; \<open>None\<close> is \<open>undefined\<close>. For \<open>selectOnFocus\<close>
  the outer \<open>None\<close> is a prop that was not passed, which \<open>mergeProps\<close> replaces by the
  default accessor.
\<close>

record createSelectableCollectionProps =
  shouldFocusWrap :: "bool option"
  disallowEmptySelection :: "bool option"
  disallowSelectAll :: "bool option"
  selectOnFocus :: "bool option option"
  disallowTypeAhead :: "bool option"
  shouldUseVirtualFocus :: "bool option"
  allowsTabNavigation :: "bool option"

text \<open>The fields of the \<open>KeyboardEvent\<close> that the handler reads; \<open>ekey\<close> is \<open>e.key\<close>.\<close>

record keyboardEvent =
  ekey :: string
  altKey :: bool
  shiftKey :: bool
  ctrlKey :: bool
  metaKey :: bool
  target :: nat

text \<open>
  The tree that the walker of \<open>getFocusableTreeWalker(root, { tabbable: true })\<close> walks:
  the root and, below each node, the tabbable elements that are its children in the
  walker's view.
\<close>

datatype walkerTree = WalkerNode nat "walkerTree list"

fun element :: "walkerTree \<Rightarrow> nat" where
  "element (WalkerNode x children) = x"

text \<open>
  What the handler reads from the page: the element \<open>ref()\<close>, \<open>Node.contains\<close>, the
  locale's direction, the two modifier tests of \<open>./utils\<close> (not among the sources, taken
  as parameters), the walker's tree and \<open>document.activeElement\<close>.
\<close>

record environment =
  refEl :: "nat option"
  contains :: "nat \<Rightarrow> nat \<Rightarrow> bool"
  isRTL :: bool
  isCtrlKeyPressed :: "keyboardEvent \<Rightarrow> bool"
  isNonContiguousSelectionModifier :: "keyboardEvent \<Rightarrow> bool"
  focusableTreeWalker :: "nat \<Rightarrow> walkerTree"
  activeElement :: "nat option"

text \<open>
  The calls that move the real DOM focus are recorded in the order they are made; what
  the browser does with them is not part of the handler.
\<close>

datatype focusCall = Focus nat | FocusWithoutScrolling nat

record 's world = dispatch +
  managerState :: 's
  focusCalls :: "focusCall list"

definition preventDefault :: "'z dispatch_scheme \<Rightarrow> 'z dispatch_scheme" where
  "preventDefault w = w\<lparr>defaultPrevented := True\<rparr>"

text \<open>Truthiness of a \<open>boolean | undefined\<close>.\<close>

definition truthy :: "bool option \<Rightarrow> bool" where
  "truthy v = (v = Some True)"

text \<open>\<open>delegate.method?.(a, b)\<close>: \<open>undefined\<close> when the method is absent.\<close>

definition callIfPresent :: "('a \<Rightarrow> 'b \<Rightarrow> 'k option) option \<Rightarrow> 'a \<Rightarrow> 'b \<Rightarrow> 'k option" where
  "callIfPresent method a b = (case method of None \<Rightarrow> None | Some f \<Rightarrow> f a b)"

text \<open>
  \<open>access(props.selectOnFocus)\<close> after \<open>mergeProps(defaultProps, props)\<close>: the default is
  \<open>selectionBehavior() === "replace"\<close>.
\<close>

definition accessSelectOnFocus ::
  "createSelectableCollectionProps \<Rightarrow> ('k, 's) multipleSelectionManager \<Rightarrow> 's \<Rightarrow> bool option" where
  "accessSelectOnFocus props manager s =
     (case selectOnFocus props of
        None \<Rightarrow> Some (selectionBehavior manager s = Replace)
      | Some v \<Rightarrow> v)"

definition navigateToKey ::
  "('k, 's) multipleSelectionManager \<Rightarrow> environment \<Rightarrow> keyboardEvent \<Rightarrow> bool option
     \<Rightarrow> 'k option \<Rightarrow> focusStrategy option \<Rightarrow> 's \<Rightarrow> 's" where
  "navigateToKey manager env e selectOnFocus' k childFocus s =
     (case k of
        None \<Rightarrow> s
      | Some k \<Rightarrow>
          (let s1 = setFocusedKey manager k childFocus s
           in if shiftKey e \<and> selectionMode manager s1 = Multiple
              then extendSelection manager k s1
              else if truthy selectOnFocus' \<and> \<not> isNonContiguousSelectionModifier env e
              then replaceSelection manager k s1
              else s1))"

text \<open>
  The loop of the Tab case: \<open>walker.lastChild()\<close> moves to the last child of the current
  node until there is none; the result is the last node reached (\<open>next\<close>).
\<close>

function lastTabbable :: "walkerTree \<Rightarrow> nat option \<Rightarrow> nat option" where
  "lastTabbable (WalkerNode x children) nextEl =
     (case rev children of
        [] \<Rightarrow> nextEl
      | lastChild # _ \<Rightarrow> lastTabbable lastChild (Some (element lastChild)))"
  by pat_completeness auto
termination
proof (relation "measure (\<lambda>(t, nextEl). size t)")
  show "wf (measure (\<lambda>(t, nextEl). size t))" by simp
next
  fix x :: nat and children :: "walkerTree list" and nextEl :: "nat option"
    and lastChild :: walkerTree and rest :: "walkerTree list"
  assume "rev children = lastChild # rest"
  then have "lastChild \<in> set (rev children)" by simp
  then have "lastChild \<in> set children" by simp
  then have "size lastChild \<le> size_list size children"
    by (simp add: size_list_estimation')
  then show "((lastChild, Some (element lastChild)), (WalkerNode x children, nextEl))
      \<in> measure (\<lambda>(t, nextEl). size t)"
    by simp
qed

text \<open>
  The body that the Home and End cases share. They do not go through \<open>navigateToKey\<close>:
  they extend the selection only with the Ctrl test and Shift, and replace it whenever
  \<open>selectOnFocus\<close> holds.
\<close>

definition jumpToKey ::
  "('k, 's) multipleSelectionManager \<Rightarrow> environment \<Rightarrow> keyboardEvent \<Rightarrow> bool option
     \<Rightarrow> 'k option \<Rightarrow> 's \<Rightarrow> 's" where
  "jumpToKey manager env e selectOnFocus' k s =
     (case k of
        None \<Rightarrow> s
      | Some k \<Rightarrow>
          (let s1 = setFocusedKey manager k None s
           in if isCtrlKeyPressed env e \<and> shiftKey e \<and> selectionMode manager s1 = Multiple
              then extendSelection manager k s1
              else if truthy selectOnFocus'
              then replaceSelection manager k s1
              else s1))"

definition onKeyDown ::
  "createSelectableCollectionProps \<Rightarrow> ('k, 's) multipleSelectionManager \<Rightarrow> 'k keyboardDelegate
     \<Rightarrow> environment \<Rightarrow> keyboardEvent \<Rightarrow> 's world \<Rightarrow> 's world" where
  "onKeyDown props manager delegate env e w0 =
     (let w = (if altKey e \<and> ekey e = ''Tab'' then preventDefault w0 else w0)
      in case refEl env of
           None \<Rightarrow> w
         | Some r \<Rightarrow>
             if \<not> contains env r (target e) then w
             else
               (let s = managerState w;
                    selectOnFocus' = accessSelectOnFocus props manager s;
                    shouldFocusWrap' = shouldFocusWrap props;
                    focusedKey' = focusedKey manager s
                in
                if ekey e = ''ArrowDown'' then
                  (case getKeyBelow delegate of
                     None \<Rightarrow> w
                   | Some getBelow \<Rightarrow>
                       (let nextKey = (case focusedKey' of
                                         Some k \<Rightarrow> getBelow k
                                       | None \<Rightarrow> callIfPresent (getFirstKey delegate) None None);
                            nextKey = (if nextKey = None \<and> truthy shouldFocusWrap'
                                       then callIfPresent (getFirstKey delegate) focusedKey' None
                                       else nextKey)
                        in (preventDefault w)
                             \<lparr>managerState := navigateToKey manager env e selectOnFocus' nextKey None s\<rparr>))
                else if ekey e = ''ArrowUp'' then
                  (case getKeyAbove delegate of
                     None \<Rightarrow> w
                   | Some getAbove \<Rightarrow>
                       (let nextKey = (case focusedKey' of
                                         Some k \<Rightarrow> getAbove k
                                       | None \<Rightarrow> callIfPresent (getLastKey delegate) None None);
                            nextKey = (if nextKey = None \<and> truthy shouldFocusWrap'
                                       then callIfPresent (getLastKey delegate) focusedKey' None
                                       else nextKey)
                        in (preventDefault w)
                             \<lparr>managerState := navigateToKey manager env e selectOnFocus' nextKey None s\<rparr>))
                else if ekey e = ''ArrowLeft'' then
                  (case getKeyLeftOf delegate of
                     None \<Rightarrow> w
                   | Some getLeftOf \<Rightarrow>
                       (let nextKey = (case focusedKey' of
                                         Some k \<Rightarrow> getLeftOf k
                                       | None \<Rightarrow>
                                           if isRTL env
                                           then callIfPresent (getFirstKey delegate) None None
                                           else callIfPresent (getLastKey delegate) None None)
                        in (preventDefault w)
                             \<lparr>managerState := navigateToKey manager env e selectOnFocus' nextKey
                                (Some (if isRTL env then First else Last)) s\<rparr>))
                else if ekey e = ''ArrowRight'' then
                  (case getKeyRightOf delegate of
                     None \<Rightarrow> w
                   | Some getRightOf \<Rightarrow>
                       (let nextKey = (case focusedKey' of
                                         Some k \<Rightarrow> getRightOf k
                                       | None \<Rightarrow>
                                           if isRTL env
                                           then callIfPresent (getLastKey delegate) None None
                                           else callIfPresent (getFirstKey delegate) None None)
                        in (preventDefault w)
                             \<lparr>managerState := navigateToKey manager env e selectOnFocus' nextKey
                                (Some (if isRTL env then Last else First)) s\<rparr>))
                else if ekey e = ''Home'' then
                  (case getFirstKey delegate of
                     None \<Rightarrow> w
                   | Some getFirst \<Rightarrow>
                       (let firstKey = getFirst focusedKey' (Some (isCtrlKeyPressed env e))
                        in (preventDefault w)
                             \<lparr>managerState := jumpToKey manager env e selectOnFocus' firstKey s\<rparr>))
                else if ekey e = ''End'' then
                  (case getLastKey delegate of
                     None \<Rightarrow> w
                   | Some getLast \<Rightarrow>
                       (let lastKey = getLast focusedKey' (Some (isCtrlKeyPressed env e))
                        in (preventDefault w)
                             \<lparr>managerState := jumpToKey manager env e selectOnFocus' lastKey s\<rparr>))
                else if ekey e = ''PageDown'' then
                  (case (getKeyPageBelow delegate, focusedKey') of
                     (Some getPageBelow, Some k) \<Rightarrow>
                       (preventDefault w)
                         \<lparr>managerState := navigateToKey manager env e selectOnFocus' (getPageBelow k) None s\<rparr>
                   | _ \<Rightarrow> w)
                else if ekey e = ''PageUp'' then
                  (case (getKeyPageAbove delegate, focusedKey') of
                     (Some getPageAbove, Some k) \<Rightarrow>
                       (preventDefault w)
                         \<lparr>managerState := navigateToKey manager env e selectOnFocus' (getPageAbove k) None s\<rparr>
                   | _ \<Rightarrow> w)
                else if ekey e = ''a'' then
                  (if isCtrlKeyPressed env e \<and> selectionMode manager s = Multiple
                      \<and> disallowSelectAll props \<noteq> Some True
                   then (preventDefault w)\<lparr>managerState := selectAll manager s\<rparr>
                   else w)
                else if ekey e = ''Escape'' then
                  (if \<not> truthy (disallowEmptySelection props)
                   then (preventDefault w)\<lparr>managerState := clearSelection manager s\<rparr>
                   else preventDefault w)
                else if ekey e = ''Tab'' then
                  (if \<not> truthy (allowsTabNavigation props) then
                     (if shiftKey e then w\<lparr>focusCalls := focusCalls w @ [Focus r]\<rparr>
                      else
                        (case lastTabbable (focusableTreeWalker env r) None of
                           None \<Rightarrow> w
                         | Some nextEl \<Rightarrow>
                             if \<not> (case activeElement env of
                                      None \<Rightarrow> False
                                    | Some active \<Rightarrow> contains env nextEl active)
                             then w\<lparr>focusCalls := focusCalls w @ [FocusWithoutScrolling nextEl]\<rparr>
                             else w))
                   else w)
                else w))"

text \<open>
  The attributes derived for the collection element: whether the type-select handlers
  are combined with the handlers above, and \<open>tabIndex\<close> (\<open>None\<close> when it is left
  \<open>undefined\<close>).
\<close>

record collectionAttributes =
  typeSelectHandlers :: bool
  tabIndex :: "int option"

definition collectionProps ::
  "createSelectableCollectionProps \<Rightarrow> ('k, 's) multipleSelectionManager \<Rightarrow> 's
     \<Rightarrow> collectionAttributes" where
  "collectionProps props manager s =
     \<lparr>typeSelectHandlers = (\<not> truthy (disallowTypeAhead props)),
      tabIndex = (if \<not> truthy (shouldUseVirtualFocus props)
                  then Some (if focusedKey manager s = None then 0 else - 1)
                  else None)\<rparr>"

section \<open>What the properties are stated with\<close>

text \<open>
  Wrapping: when there is no neighbour and wrapping is on, the key at the opposite end.
\<close>

definition orOppositeEnd :: "bool option \<Rightarrow> 'k option \<Rightarrow> 'k option \<Rightarrow> 'k option" where
  "orOppositeEnd wrap neighbour oppositeEnd =
     (if neighbour = None \<and> truthy wrap then oppositeEnd else neighbour)"

text \<open>
  The key that a navigation keydown resolves to, with the focus hint that goes with it:
  what the delegate answers when it is asked for the key pressed, from the focused key
  (the neighbour in the direction of the arrow, the end of the collection when nothing
  is focused, the key one page away). \<open>None\<close> is a keydown that is not a navigation at
  all (the delegate lacks the method, or a page key with nothing focused);
  \<open>Some (None, hint)\<close> is a navigation for which the delegate resolves no key.
\<close>

definition delegateResolves ::
  "'k keyboardDelegate \<Rightarrow> environment \<Rightarrow> bool option \<Rightarrow> 'k option \<Rightarrow> string
     \<Rightarrow> ('k option \<times> focusStrategy option) option" where
  "delegateResolves delegate env wrap focused keyName =
     (if keyName = ''ArrowDown'' then
        (case getKeyBelow delegate of
           None \<Rightarrow> None
         | Some neighbour \<Rightarrow>
             Some (orOppositeEnd wrap
                     (case focused of
                        Some k \<Rightarrow> neighbour k
                      | None \<Rightarrow> callIfPresent (getFirstKey delegate) None None)
                     (callIfPresent (getFirstKey delegate) focused None), None))
      else if keyName = ''ArrowUp'' then
        (case getKeyAbove delegate of
           None \<Rightarrow> None
         | Some neighbour \<Rightarrow>
             Some (orOppositeEnd wrap
                     (case focused of
                        Some k \<Rightarrow> neighbour k
                      | None \<Rightarrow> callIfPresent (getLastKey delegate) None None)
                     (callIfPresent (getLastKey delegate) focused None), None))
      else if keyName = ''ArrowLeft'' then
        (case getKeyLeftOf delegate of
           None \<Rightarrow> None
         | Some neighbour \<Rightarrow>
             Some (case focused of
                     Some k \<Rightarrow> neighbour k
                   | None \<Rightarrow>
                       callIfPresent (if isRTL env then getFirstKey delegate else getLastKey delegate)
                         None None,
                   Some (if isRTL env then First else Last)))
      else if keyName = ''ArrowRight'' then
        (case getKeyRightOf delegate of
           None \<Rightarrow> None
         | Some neighbour \<Rightarrow>
             Some (case focused of
                     Some k \<Rightarrow> neighbour k
                   | None \<Rightarrow>
                       callIfPresent (if isRTL env then getLastKey delegate else getFirstKey delegate)
                         None None,
                   Some (if isRTL env then Last else First)))
      else if keyName = ''PageDown'' then
        (case (getKeyPageBelow delegate, focused) of
           (Some jump, Some k) \<Rightarrow> Some (jump k, None)
         | _ \<Rightarrow> None)
      else if keyName = ''PageUp'' then
        (case (getKeyPageAbove delegate, focused) of
           (Some jump, Some k) \<Rightarrow> Some (jump k, None)
         | _ \<Rightarrow> None)
      else None)"

definition navigationKeys :: "string list" where
  "navigationKeys =
     [''ArrowDown'', ''ArrowUp'', ''ArrowLeft'', ''ArrowRight'', ''PageUp'', ''PageDown'']"

text \<open>
  What a manager's focus accessor is expected to show after its methods: the key that
  \<open>setFocusedKey\<close> was given, untouched by the two selection methods of a navigation.
\<close>

definition tracksFocus :: "('k, 's) multipleSelectionManager \<Rightarrow> bool" where
  "tracksFocus manager =
     ((\<forall>k hint s. focusedKey manager (setFocusedKey manager k hint s) = Some k)
      \<and> (\<forall>k s. focusedKey manager (extendSelection manager k s) = focusedKey manager s)
      \<and> (\<forall>k s. focusedKey manager (replaceSelection manager k s) = focusedKey manager s))"

section \<open>Concrete inputs\<close>

text \<open>The collection of the spec's search example, and a collator that ignores case.\<close>

definition apple :: item where
  "apple = \<lparr>oid = 0, key = ''apple'', textValue = ''Apple'', ref = 10, isDisabled = False\<rparr>"

definition banana :: item where
  "banana = \<lparr>oid = 1, key = ''banana'', textValue = ''Banana'', ref = 11, isDisabled = False\<rparr>"

definition apricot :: item where
  "apricot = \<lparr>oid = 2, key = ''apricot'', textValue = ''Apricot'', ref = 12, isDisabled = False\<rparr>"

definition plantain :: item where
  "plantain = \<lparr>oid = 3, key = ''banana'', textValue = ''Plantain'', ref = 13, isDisabled = False\<rparr>"

definition fruits :: "item list" where
  "fruits = [apple, banana, apricot]"

definition fruitKeys :: "string list" where
  "fruitKeys = keys fruits"

definition lowerCase :: "char \<Rightarrow> nat" where
  "lowerCase ch = (let n = of_char ch in if (65::nat) \<le> n \<and> n \<le> 90 then n + 32 else n)"

fun compareUnits :: "nat list \<Rightarrow> nat list \<Rightarrow> int" where
  "compareUnits [] [] = 0"
| "compareUnits [] (y # ys) = - 1"
| "compareUnits (x # xs) [] = 1"
| "compareUnits (x # xs) (y # ys) =
     (if x < y then - 1 else if y < x then 1 else compareUnits xs ys)"

definition baseCollator :: collator where
  "baseCollator = \<lparr>compare = (\<lambda>a b. compareUnits (map lowerCase a) (map lowerCase b))\<rparr>"

text \<open>
  A manager that records the methods called on it, in order, and answers
  \<open>focusedKey()\<close> with the last key it was given.
\<close>

datatype 'k managerCall =
  SetFocusedKey 'k "focusStrategy option"
| ExtendSelection 'k
| ReplaceSelection 'k
| SelectAll
| ClearSelection

record 'k recorded =
  mode :: selectionMode
  behavior :: selectionBehavior
  focused :: "'k option"
  calls :: "'k managerCall list"

definition recordingManager :: "('k, 'k recorded) multipleSelectionManager" where
  "recordingManager =
     \<lparr>selectionMode = mode,
      selectionBehavior = behavior,
      focusedKey = focused,
      setFocusedKey = (\<lambda>k hint s. s\<lparr>focused := Some k, calls := calls s @ [SetFocusedKey k hint]\<rparr>),
      extendSelection = (\<lambda>k s. s\<lparr>calls := calls s @ [ExtendSelection k]\<rparr>),
      replaceSelection = (\<lambda>k s. s\<lparr>calls := calls s @ [ReplaceSelection k]\<rparr>),
      selectAll = (\<lambda>s. s\<lparr>calls := calls s @ [SelectAll]\<rparr>),
      clearSelection = (\<lambda>s. s\<lparr>calls := calls s @ [ClearSelection]\<rparr>)\<rparr>"

text \<open>A delegate for a vertical list of keys: below is next, above is previous.\<close>

fun keyAfter :: "'k list \<Rightarrow> 'k \<Rightarrow> 'k option" where
  "keyAfter (a # b # rest) k = (if a = k then Some b else keyAfter (b # rest) k)"
| "keyAfter _ k = None"

definition listDelegate :: "'k list \<Rightarrow> 'k keyboardDelegate" where
  "listDelegate ks =
     \<lparr>getKeyBelow = Some (keyAfter ks),
      getKeyAbove = Some (keyAfter (rev ks)),
      getKeyLeftOf = None,
      getKeyRightOf = None,
      getFirstKey = Some (\<lambda>fromKey ctrl. first ks),
      getLastKey = Some (\<lambda>fromKey ctrl. first (rev ks)),
      getKeyPageBelow = None,
      getKeyPageAbove = None\<rparr>"

text \<open>
  A page where element 1 is the collection element and holds the three items' elements;
  element 2 lies outside of it. The two modifier tests read the Ctrl key.
\<close>

definition page :: environment where
  "page =
     \<lparr>refEl = Some 1,
      contains = (\<lambda>a b. a = b \<or> (a = 1 \<and> (b = 10 \<or> b = 11 \<or> b = 12))),
      isRTL = False,
      isCtrlKeyPressed = ctrlKey,
      isNonContiguousSelectionModifier = ctrlKey,
      focusableTreeWalker = (\<lambda>root. WalkerNode root []),
      activeElement = None\<rparr>"

definition keydown :: "string \<Rightarrow> nat \<Rightarrow> keyboardEvent" where
  "keydown name on =
     \<lparr>ekey = name, altKey = False, shiftKey = False, ctrlKey = False, metaKey = False, target = on\<rparr>"

definition noProps :: createSelectableCollectionProps where
  "noProps =
     \<lparr>shouldFocusWrap = None, disallowEmptySelection = None, disallowSelectAll = None,
      selectOnFocus = None, disallowTypeAhead = None, shouldUseVirtualFocus = None,
      allowsTabNavigation = None\<rparr>"

definition started :: "selectionMode \<Rightarrow> string option \<Rightarrow> string recorded world" where
  "started m k =
     \<lparr>defaultPrevented = False,
      managerState = \<lparr>mode = m, behavior = Toggle, focused = k, calls = []\<rparr>,
      focusCalls = []\<rparr>"

section \<open>Properties of the collection\<close>

subsection \<open>Searching by position\<close>

lemma findIndex_bounds: "- 1 \<le> findIndex P xs \<and> findIndex P xs < int (length xs)"
  by (induction xs) (auto simp: Let_def)

lemma findIndex_neg_iff: "findIndex P xs < 0 \<longleftrightarrow> (\<forall>x\<in>set xs. \<not> P x)"
proof (induction xs)
  case Nil
  then show ?case by simp
next
  case (Cons x xs)
  then show ?case
    using findIndex_bounds [of P xs] by (auto simp: Let_def)
qed

lemma findIndex_none_iff: "findIndex P xs = - 1 \<longleftrightarrow> (\<forall>x\<in>set xs. \<not> P x)"
  using findIndex_bounds [of P xs] findIndex_neg_iff [of P xs] by auto

lemma findIndex_least:
  "i < length xs \<Longrightarrow> P (xs ! i) \<Longrightarrow> (\<forall>j<i. \<not> P (xs ! j)) \<Longrightarrow> findIndex P xs = int i"
proof (induction xs arbitrary: i)
  case Nil
  then show ?case by simp
next
  case (Cons x xs)
  show ?case
  proof (cases i)
    case 0
    with Cons.prems show ?thesis by simp
  next
    case (Suc n)
    with Cons.prems have "\<not> P x" by auto
    moreover have "findIndex P xs = int n"
      using Cons.prems Suc by (intro Cons.IH) auto
    ultimately show ?thesis using Suc by (simp add: Let_def)
  qed
qed

lemma findIndex_found:
  "0 \<le> findIndex P xs \<Longrightarrow>
     P (xs ! nat (findIndex P xs)) \<and> (\<forall>j<nat (findIndex P xs). \<not> P (xs ! j))"
proof (induction xs)
  case Nil
  then show ?case by simp
next
  case (Cons x xs)
  show ?case
  proof (cases "P x")
    case True
    then show ?thesis by simp
  next
    case False
    with Cons.prems have nn: "0 \<le> findIndex P xs"
      by (simp add: Let_def split: if_splits)
    with False have eq: "findIndex P (x # xs) = findIndex P xs + 1"
      by (simp add: Let_def)
    have natSuc: "nat (findIndex P xs + 1) = Suc (nat (findIndex P xs))"
      using nn by simp
    from Cons.IH [OF nn] False show ?thesis
      unfolding eq natSuc by (auto simp: less_Suc_eq_0_disj)
  qed
qed

lemma find_findIndex:
  "find P xs = (if 0 \<le> findIndex P xs then Some (xs ! nat (findIndex P xs)) else None)"
proof (induction xs)
  case Nil
  then show ?case by simp
next
  case (Cons x xs)
  have "nat (findIndex P xs + 1) = Suc (nat (findIndex P xs))" if "0 \<le> findIndex P xs"
    using that by simp
  with Cons show ?case
    using findIndex_bounds [of P xs] by (auto simp: Let_def)
qed

lemma findIndex_append:
  "findIndex P (xs @ ys) =
     (if 0 \<le> findIndex P xs then findIndex P xs
      else if findIndex P ys < 0 then - 1 else int (length xs) + findIndex P ys)"
  using findIndex_bounds [of P ys] by (induction xs) (auto simp: Let_def)

lemma find_append_first: "find P xs \<noteq> None \<Longrightarrow> find P (xs @ ys) = find P xs"
  by (induction xs) auto

lemma find_Some_member: "find P ys = Some m \<Longrightarrow> m \<in> set ys \<and> P m"
  by (induction ys) (auto split: if_splits)

lemma find_always: "(\<And>y. P y) \<Longrightarrow> find P ys = None \<Longrightarrow> ys = []"
  by (cases ys) auto

lemma first_filter: "first (filter P ys) = find P ys"
  by (induction ys) (auto simp: first_def)

lemma indexOf_member:
  assumes "m \<in> set xs"
  shows "\<exists>i<length xs. indexOf xs (Some m) = int i \<and> xs ! i = m \<and> (\<forall>j<i. xs ! j \<noteq> m)"
proof -
  let ?r = "findIndex (\<lambda>y. y = m) xs"
  have nn: "0 \<le> ?r"
    using assms findIndex_neg_iff [of "\<lambda>y. y = m" xs] by auto
  have lt: "nat ?r < length xs"
    using findIndex_bounds [of "\<lambda>y. y = m" xs] nn by (simp add: nat_less_iff)
  from findIndex_found [OF nn] nn lt show ?thesis
    by (intro exI [of _ "nat ?r"]) (simp add: indexOf_def)
qed

subsection \<open>First and last index\<close>

text \<open>
  Claim C7. For an empty collection \<open>getFirstIndex\<close> and \<open>getLastIndex\<close> both return -1,
  and \<open>isFirstIndex\<close> and \<open>isLastIndex\<close> are false of every index; for a collection that
  is not empty \<open>getFirstIndex\<close> returns 0 and \<open>getLastIndex\<close> returns the length minus one.
\<close>

theorem empty_collection_indexes:
  "(items = [] \<longrightarrow>
      getFirstIndex items = - 1 \<and> getLastIndex items = - 1
      \<and> (\<forall>i. \<not> isFirstIndex items i \<and> \<not> isLastIndex items i))
   \<and> (items \<noteq> [] \<longrightarrow>
      getFirstIndex items = 0 \<and> getLastIndex items = int (length items) - 1)"
  by (simp add: getFirstIndex_def getLastIndex_def isFirstIndex_def isLastIndex_def
      isCollectionEmpty_def)

theorem empty_collection_indexes_witness:
  "getFirstIndex [] = - 1 \<and> getLastIndex [] = - 1 \<and> \<not> isFirstIndex [] 0 \<and> \<not> isLastIndex [] 0
   \<and> fruits \<noteq> [] \<and> getFirstIndex fruits = 0 \<and> getLastIndex fruits = 2"
  using empty_collection_indexes [of "[]"] empty_collection_indexes [of fruits]
  by (simp add: fruits_def)

subsection \<open>Keys and positions\<close>

text \<open>
  Claim C4. Looking a key up by its index gives what looking it up directly gives:
  \<open>findByIndex (findIndexByKey k) = findByKey k\<close>. For a key of the collection the index
  is a position of the collection and the item found carries the key; when the keys
  are unique, every position is the index of the key of its item, so the two lookups are
  inverse to each other; for a key that is absent \<open>findIndexByKey\<close> returns -1 and
  \<open>findByKey\<close> returns nothing, as it does for no key at all.
\<close>

theorem index_key_round_trip:
  "findByIndex items (findIndexByKey items (Some k)) = findByKey items k
   \<and> (k \<in> set (keys items) \<longrightarrow>
        0 \<le> findIndexByKey items (Some k) \<and> findIndexByKey items (Some k) < int (length items)
        \<and> (\<exists>it. findByKey items k = Some it \<and> key it = k))
   \<and> (distinct (keys items) \<longrightarrow>
        (\<forall>i. 0 \<le> i \<and> i < int (length items) \<longrightarrow>
           (\<exists>it. findByIndex items i = Some it \<and> findIndexByKey items (Some (key it)) = i)))
   \<and> (k \<notin> set (keys items) \<longrightarrow>
        findIndexByKey items (Some k) = - 1 \<and> findByKey items k = None
        \<and> findByIndex items (- 1) = None)
   \<and> findIndexByKey items None = - 1"
proof (intro conjI impI allI)
  let ?P = "\<lambda>it. Some (key it) = Some k"
  show rt: "findByIndex items (findIndexByKey items (Some k)) = findByKey items k"
    using findIndex_bounds [of ?P items] find_findIndex [of "\<lambda>it. key it = k" items]
    by (simp add: findByIndex_def findIndexByKey_def findByKey_def)
  show "findIndexByKey items None = - 1"
    by (simp add: findIndexByKey_def findIndex_none_iff)
  {
    assume absent: "k \<notin> set (keys items)"
    then show none: "findIndexByKey items (Some k) = - 1"
      by (auto simp: findIndexByKey_def findIndex_none_iff keys_def)
    show "findByKey items k = None"
      using rt none by (simp add: findByIndex_def)
    show "findByIndex items (- 1) = None"
      by (simp add: findByIndex_def)
  }
  {
    assume present: "k \<in> set (keys items)"
    then have "\<not> findIndex ?P items < 0"
      unfolding findIndex_neg_iff by (auto simp: keys_def)
    then show nn: "0 \<le> findIndexByKey items (Some k)"
      by (simp add: findIndexByKey_def)
    show "findIndexByKey items (Some k) < int (length items)"
      using findIndex_bounds [of ?P items] by (simp add: findIndexByKey_def)
    from nn findIndex_found [of ?P items]
    have "key (items ! nat (findIndex ?P items)) = k"
      by (simp add: findIndexByKey_def)
    with nn find_findIndex [of "\<lambda>it. key it = k" items]
    show "\<exists>it. findByKey items k = Some it \<and> key it = k"
      by (simp add: findByKey_def findIndexByKey_def)
  }
  {
    fix i :: int
    assume d: "distinct (keys items)" and i: "0 \<le> i \<and> i < int (length items)"
    let ?n = "nat i"
    let ?Q = "\<lambda>it. Some (key it) = Some (key (items ! ?n))"
    have n: "?n < length items" using i by (simp add: nat_less_iff)
    have "\<not> ?Q (items ! j)" if "j < ?n" for j
    proof
      assume "?Q (items ! j)"
      then have "keys items ! j = keys items ! ?n"
        using that n by (simp add: keys_def)
      moreover have "j < length (keys items)" "?n < length (keys items)"
        using that n by (simp_all add: keys_def)
      ultimately have "j = ?n"
        using d by (simp add: nth_eq_iff_index_eq)
      with that show False by simp
    qed
    then have "findIndex ?Q items = int ?n"
      using n by (intro findIndex_least) auto
    then show "\<exists>it. findByIndex items i = Some it \<and> findIndexByKey items (Some (key it)) = i"
      using i by (simp add: findByIndex_def findIndexByKey_def)
  }
qed

theorem index_key_round_trip_witness:
  "''banana'' \<in> set (keys fruits) \<and> distinct (keys fruits)
   \<and> findIndexByKey fruits (Some ''banana'') = 1
   \<and> findByIndex fruits (findIndexByKey fruits (Some ''banana'')) = Some banana
   \<and> findByKey fruits ''banana'' = Some banana
   \<and> ''cherry'' \<notin> set (keys fruits)
   \<and> findIndexByKey fruits (Some ''cherry'') = - 1 \<and> findByKey fruits ''cherry'' = None"
  using index_key_round_trip [of fruits "''banana''"] index_key_round_trip [of fruits "''cherry''"]
  by (simp add: fruits_def apple_def banana_def apricot_def keys_def findIndexByKey_def
      findByKey_def findByIndex_def)

subsection \<open>Adding an item whose key is taken\<close>

text \<open>
  Claim C9. \<open>addItem\<close> appends whatever it is given: the collection grows by one, the
  items it had stay where they were and the new item is the last one. When the key of
  the new item was already there, the keys are no longer unique, and \<open>findIndexByKey\<close>
  and \<open>findByKey\<close> still answer, for that key, with the position and the item that was
  added first. No operation of the collection has a result that rejects the second item.
\<close>

theorem addItem_keeps_duplicate_keys:
  "length (addItem items it) = Suc (length items)
   \<and> take (length items) (addItem items it) = items
   \<and> findByIndex (addItem items it) (int (length items)) = Some it
   \<and> (key it \<in> set (keys items) \<longrightarrow>
        \<not> distinct (keys (addItem items it))
        \<and> findIndexByKey (addItem items it) (Some (key it)) = findIndexByKey items (Some (key it))
        \<and> 0 \<le> findIndexByKey items (Some (key it))
        \<and> findIndexByKey items (Some (key it)) < int (length items)
        \<and> findByKey (addItem items it) (key it) = findByKey items (key it)
        \<and> findByKey items (key it) \<noteq> None)"
proof (intro conjI impI)
  let ?P = "\<lambda>x. Some (key x) = Some (key it)"
  show "length (addItem items it) = Suc (length items)"
    and "take (length items) (addItem items it) = items"
    and "findByIndex (addItem items it) (int (length items)) = Some it"
    by (simp_all add: addItem_def findByIndex_def)
  assume present: "key it \<in> set (keys items)"
  then show "\<not> distinct (keys (addItem items it))"
    by (simp add: keys_def addItem_def)
  from present have "\<not> findIndex ?P items < 0"
    unfolding findIndex_neg_iff by (auto simp: keys_def)
  then show nn: "0 \<le> findIndexByKey items (Some (key it))"
    by (simp add: findIndexByKey_def)
  then show "findIndexByKey (addItem items it) (Some (key it)) = findIndexByKey items (Some (key it))"
    by (simp add: findIndexByKey_def addItem_def findIndex_append)
  show "findIndexByKey items (Some (key it)) < int (length items)"
    using findIndex_bounds [of ?P items] by (simp add: findIndexByKey_def)
  from nn have some: "findByKey items (key it) \<noteq> None"
    using find_findIndex [of "\<lambda>x. key x = key it" items]
    by (simp add: findByKey_def findIndexByKey_def)
  then show "findByKey (addItem items it) (key it) = findByKey items (key it)"
    by (simp add: findByKey_def addItem_def find_append_first)
  from some show "findByKey items (key it) \<noteq> None" .
qed

theorem addItem_keeps_duplicate_keys_witness:
  "key plantain \<in> set (keys fruits)
   \<and> length (addItem fruits plantain) = 4
   \<and> \<not> distinct (keys (addItem fruits plantain))
   \<and> findIndexByKey (addItem fruits plantain) (Some ''banana'') = 1
   \<and> findByKey (addItem fruits plantain) ''banana'' = Some banana
   \<and> findByIndex (addItem fruits plantain) 3 = Some plantain"
  using addItem_keeps_duplicate_keys [of fruits plantain]
  by (simp add: fruits_def apple_def banana_def apricot_def plantain_def keys_def
      findIndexByKey_def findByKey_def)

subsection \<open>Searching by text\<close>

lemma orderedItems_searchOrder:
  "slice xs startIndex None @ slice xs 0 (Some startIndex) = searchOrder xs startIndex"
  by (simp add: slice_def relativeIndex_def wrapAroundOrder_def searchOrder_def min_def max_def)

lemma set_wrapAroundOrder: "set (wrapAroundOrder xs k) = set xs"
proof -
  have "set (take k xs) \<union> set (drop k xs) = set xs"
    using set_append [of "take k xs" "drop k xs"] by simp
  then show ?thesis unfolding wrapAroundOrder_def set_append by blast
qed

text \<open>
  The order wraps around: position \<open>j\<close> of the order that starts at \<open>k\<close> holds the item
  at \<open>k + j\<close>, counted modulo the length.
\<close>

lemma wrapAroundOrder_nth:
  assumes "k \<le> length xs" and "j < length xs"
  shows "wrapAroundOrder xs k ! j = xs ! ((k + j) mod length xs)"
proof (cases "j < length xs - k")
  case True
  then show ?thesis using assms by (simp add: wrapAroundOrder_def nth_append)
next
  case False
  then have "length xs \<le> k + j" and "k + j - length xs < length xs"
    using assms by simp_all
  then have "(k + j) mod length xs = k + j - length xs"
    by (simp add: le_mod_geq)
  moreover have "j - (length xs - k) = k + j - length xs"
    using assms False by simp
  ultimately show ?thesis
    using assms False by (simp add: wrapAroundOrder_def nth_append)
qed

lemma searchOrder_position:
  assumes "0 \<le> startIndex" and "startIndex \<le> int (length xs)"
  shows "searchOrder xs startIndex = wrapAroundOrder xs (nat startIndex)"
proof -
  from assms have "nat startIndex \<le> length xs"
    by (simp add: nat_le_iff)
  with assms(1) show ?thesis
    by (simp add: searchOrder_def relativeIndex_def)
qed

lemma searchOrder_from_end:
  "startIndex < 0 \<Longrightarrow> - int (length xs) \<le> startIndex \<Longrightarrow>
     searchOrder xs startIndex = wrapAroundOrder xs (nat (int (length xs) + startIndex))"
  by (simp add: searchOrder_def relativeIndex_def max_def)

lemma matchesFilter_empty: "compare c [] [] = 0 \<Longrightarrow> matchesFilter c [] it"
  by (simp add: matchesFilter_def startsWithFilter_def)

text \<open>
  Claim C2. \<open>findIndexBySearch\<close> searches the items in the wrap-around order that starts
  at the start index. When an item starts with the filter, as the collator compares, the
  result is the index, in the collection as it is, of the first such item of that order.
  When there is none and the filter is one character repeated, the same holds for the
  filter of that single character. In every other case the result is -1. The collator
  is one that compares the empty string equal to itself.
\<close>

theorem findIndexBySearch_wrap_around:
  assumes "compare c [] [] = 0"
  shows
    "(find (matchesFilter c flt) (searchOrder items startIndex) = Some m \<longrightarrow>
        (\<exists>i<length items. findIndexBySearch items flt c startIndex = Inr (int i)
            \<and> items ! i = m \<and> (\<forall>j<i. items ! j \<noteq> m)))
     \<and> (find (matchesFilter c flt) (searchOrder items startIndex) = None
        \<and> allSameLetter flt
        \<and> find (matchesFilter c (take 1 flt)) (searchOrder items startIndex) = Some m \<longrightarrow>
        (\<exists>i<length items. findIndexBySearch items flt c startIndex = Inr (int i)
            \<and> items ! i = m \<and> (\<forall>j<i. items ! j \<noteq> m)))
     \<and> (find (matchesFilter c flt) (searchOrder items startIndex) = None
        \<and> (allSameLetter flt \<longrightarrow>
             find (matchesFilter c (take 1 flt)) (searchOrder items startIndex) = None) \<longrightarrow>
        findIndexBySearch items flt c startIndex = Inr (- 1))"
proof -
  let ?ord = "searchOrder items startIndex"
  have unfold: "findIndexBySearch items flt c startIndex =
     (if find (matchesFilter c flt) ?ord \<noteq> None
      then Inr (indexOf items (find (matchesFilter c flt) ?ord))
      else if allSameLetter flt then
        (case flt of
           [] \<Rightarrow> (if ?ord = [] then Inr (indexOf items None) else Inl UndefinedFilter)
         | l # _ \<Rightarrow> Inr (indexOf items (find (matchesFilter c [l]) ?ord)))
      else Inr (- 1))"
    unfolding findIndexBySearch_def orderedItems_searchOrder Let_def filterItems_def first_filter ..
  have idx: "\<exists>i<length items. indexOf items (Some m) = int i \<and> items ! i = m
      \<and> (\<forall>j<i. items ! j \<noteq> m)" if "find P ?ord = Some m" for P
  proof -
    from that have "m \<in> set ?ord" by (simp add: find_Some_member)
    then have "m \<in> set items" by (simp add: searchOrder_def set_wrapAroundOrder)
    then show ?thesis by (rule indexOf_member)
  qed
  have single: "findIndexBySearch items flt c startIndex
        = Inr (indexOf items (find (matchesFilter c (take 1 flt)) ?ord))"
    if none: "find (matchesFilter c flt) ?ord = None" and same: "allSameLetter flt"
  proof (cases flt)
    case Nil
    with none assms have "?ord = []"
      by (intro find_always [of "matchesFilter c []"]) (simp_all add: matchesFilter_empty)
    with none Nil same unfold show ?thesis by (simp add: indexOf_def)
  next
    case (Cons l ls)
    with none same unfold show ?thesis by simp
  qed
  have A: "\<exists>i<length items. findIndexBySearch items flt c startIndex = Inr (int i)
            \<and> items ! i = m \<and> (\<forall>j<i. items ! j \<noteq> m)"
    if "find (matchesFilter c flt) ?ord = Some m"
    using idx [OF that] that by (simp add: unfold)
  have B: "\<exists>i<length items. findIndexBySearch items flt c startIndex = Inr (int i)
            \<and> items ! i = m \<and> (\<forall>j<i. items ! j \<noteq> m)"
    if "find (matchesFilter c flt) ?ord = None" "allSameLetter flt"
       "find (matchesFilter c (take 1 flt)) ?ord = Some m"
    using idx [OF that(3)] single [OF that(1,2)] that(3) by simp
  have C: "findIndexBySearch items flt c startIndex = Inr (- 1)"
    if none: "find (matchesFilter c flt) ?ord = None"
      and rest: "allSameLetter flt \<longrightarrow> find (matchesFilter c (take 1 flt)) ?ord = None"
  proof (cases "allSameLetter flt")
    case True
    with single [OF none] rest show ?thesis by (simp add: indexOf_def)
  next
    case False
    with none show ?thesis by (simp add: unfold)
  qed
  from A B C show ?thesis by blast
qed

theorem findIndexBySearch_wrap_around_witness:
  "compare baseCollator [] [] = 0
   \<and> searchOrder fruits 1 = [banana, apricot, apple]
   \<and> find (matchesFilter baseCollator ''a'') (searchOrder fruits 1) = Some apricot
   \<and> findIndexBySearch fruits ''a'' baseCollator 1 = Inr 2
   \<and> find (matchesFilter baseCollator ''aa'') (searchOrder fruits 1) = None
   \<and> allSameLetter ''aa''
   \<and> findIndexBySearch fruits ''aa'' baseCollator 1 = Inr 2
   \<and> find (matchesFilter baseCollator ''ab'') (searchOrder fruits 1) = None
   \<and> \<not> allSameLetter ''ab''
   \<and> findIndexBySearch fruits ''ab'' baseCollator 1 = Inr (- 1)"
proof -
  have h: "compare baseCollator [] [] = 0"
    by (simp add: baseCollator_def)
  have ord: "searchOrder fruits 1 = [banana, apricot, apple]"
    by (simp add: searchOrder_def relativeIndex_def wrapAroundOrder_def fruits_def)
  have m: "matchesFilter baseCollator ''a'' apple" "\<not> matchesFilter baseCollator ''a'' banana"
    "matchesFilter baseCollator ''a'' apricot"
    "\<not> matchesFilter baseCollator ''aa'' apple" "\<not> matchesFilter baseCollator ''aa'' banana"
    "\<not> matchesFilter baseCollator ''aa'' apricot"
    "\<not> matchesFilter baseCollator ''ab'' apple" "\<not> matchesFilter baseCollator ''ab'' banana"
    "\<not> matchesFilter baseCollator ''ab'' apricot"
    by (simp_all add: matchesFilter_def startsWithFilter_def apple_def banana_def apricot_def
        baseCollator_def lowerCase_def)
  have f: "find (matchesFilter baseCollator ''a'') (searchOrder fruits 1) = Some apricot"
    "find (matchesFilter baseCollator ''aa'') (searchOrder fruits 1) = None"
    "find (matchesFilter baseCollator ''ab'') (searchOrder fruits 1) = None"
    "find (matchesFilter baseCollator (take 1 ''aa'')) (searchOrder fruits 1) = Some apricot"
    unfolding ord by (simp_all add: m)
  have s: "allSameLetter ''aa''" "\<not> allSameLetter ''ab''"
    by simp_all
  have two: "i = 2" if "i < length fruits" "fruits ! i = apricot" for i
  proof -
    from that(1) have "i = 0 \<or> i = 1 \<or> i = 2"
      by (auto simp: fruits_def)
    with that(2) show ?thesis
      by (auto simp: fruits_def apple_def banana_def apricot_def)
  qed
  have a: "findIndexBySearch fruits ''a'' baseCollator 1 = Inr 2"
    using findIndexBySearch_wrap_around [OF h, of "''a''" fruits 1 apricot] f(1) two by auto
  have aa: "findIndexBySearch fruits ''aa'' baseCollator 1 = Inr 2"
    using findIndexBySearch_wrap_around [OF h, of "''aa''" fruits 1 apricot] f(2,4) s(1) two
    by auto
  have ab: "findIndexBySearch fruits ''ab'' baseCollator 1 = Inr (- 1)"
    using findIndexBySearch_wrap_around [OF h, of "''ab''" fruits 1 apricot] f(3) s(2) by simp
  from h ord f s a aa ab show ?thesis by simp
qed

section \<open>Properties of the handler chain\<close>

lemma chainHandlers_Nil: "chainHandlers [] event w = w"
  by (simp add: chainHandlers_def)

lemma chainHandlers_Cons:
  "chainHandlers (fn # fns) event w = chainHandlers fns event (snd (callHandler fn event w))"
  by (simp add: chainHandlers_def)

lemma callHandler_effect:
  "snd (callHandler fn event w) = (case fn of None \<Rightarrow> w | Some h \<Rightarrow> invoke h event w)"
  by (simp add: callHandler_def invoke_def Let_def split: option.split eventHandler.split)

lemma chainHandlers_supplied:
  "chainHandlers fns event w = fold (\<lambda>fn. invoke fn event) (supplied fns) w"
proof (induction fns arbitrary: w)
  case Nil
  show ?case by (simp add: chainHandlers_Nil)
next
  case (Cons fn fns)
  show ?case
  proof (cases fn)
    case None
    then show ?thesis
      using Cons.IH [of w] by (simp add: chainHandlers_Cons callHandler_effect)
  next
    case (Some h)
    then show ?thesis
      using Cons.IH [of "invoke h event w"]
      by (simp add: chainHandlers_Cons callHandler_effect)
  qed
qed

lemma fold_tracing:
  "trace (fold (\<lambda>fn. invoke fn event) (map tracing tags) w)
     = trace w @ map (\<lambda>tag. (tag, event)) tags"
  by (induction tags arbitrary: w) (simp_all add: invoke_def tracing_def)

lemma supplied_map_tracing: "supplied (map (map_option tracing) tags) = map tracing (supplied tags)"
  by (induction tags rule: supplied.induct) simp_all

text \<open>
  Claim C8. The function that \<open>chainHandlers\<close> returns, applied to an event, does what
  calling the supplied handlers one after the other does, first argument first, each
  with that event; an \<open>undefined\<close> argument contributes nothing. With handlers that
  record their call, the record shows the tag of every supplied handler once, in the
  order of the arguments, each with the event.
\<close>

theorem chainHandlers_in_order:
  "chainHandlers fns event w = fold (\<lambda>fn. invoke fn event) (supplied fns) w
   \<and> trace (chainHandlers (map (map_option tracing) tags) event t)
       = trace t @ map (\<lambda>tag. (tag, event)) (supplied tags)"
  by (simp add: chainHandlers_supplied supplied_map_tracing fold_tracing)

theorem chainHandlers_in_order_witness:
  "trace (chainHandlers [Some (tracing 1), None, Some (tracing 2), Some (tracing 3)]
            ''keydown'' \<lparr>defaultPrevented = False, trace = []\<rparr>)
     = [(1, ''keydown''), (2, ''keydown''), (3, ''keydown'')]"
  using chainHandlers_in_order
    [where fns = "[Some (tracing 1), None, Some (tracing 2), Some (tracing 3)]"
      and event = "''keydown''" and w = "\<lparr>defaultPrevented = False, trace = []\<rparr>"
      and tags = "[Some 1, None, Some 2, Some 3]"
      and t = "\<lparr>defaultPrevented = False, trace = []\<rparr>", THEN conjunct2]
  by simp

section \<open>Properties of the keydown handler\<close>

subsection \<open>The handler, key by key\<close>

lemma onKeyDown_not_inside:
  assumes "\<not> (case refEl env of None \<Rightarrow> False | Some r \<Rightarrow> contains env r (target e))"
  shows "onKeyDown props manager delegate env e w
          = (if altKey e \<and> ekey e = ''Tab'' then w\<lparr>defaultPrevented := True\<rparr> else w)"
proof (cases "refEl env")
  case None
  then show ?thesis by (simp add: onKeyDown_def preventDefault_def)
next
  case (Some r)
  with assms have "\<not> contains env r (target e)" by simp
  with Some show ?thesis by (simp add: onKeyDown_def preventDefault_def)
qed

lemma onKeyDown_alt_Tab:
  assumes "altKey e" and "ekey e = ''Tab''"
  shows "defaultPrevented (onKeyDown props manager delegate env e w)"
proof (cases "case refEl env of None \<Rightarrow> False | Some r \<Rightarrow> contains env r (target e)")
  case False
  then show ?thesis using assms by (simp add: onKeyDown_not_inside)
next
  case True
  then obtain r where "refEl env = Some r" "contains env r (target e)"
    by (cases "refEl env") simp_all
  then show ?thesis
    using assms by (simp add: onKeyDown_def preventDefault_def Let_def split: option.split)
qed

lemma onKeyDown_Escape:
  assumes "refEl env = Some r" and "contains env r (target e)" and "ekey e = ''Escape''"
  shows "onKeyDown props manager delegate env e w
          = (if truthy (disallowEmptySelection props) then w\<lparr>defaultPrevented := True\<rparr>
             else w\<lparr>defaultPrevented := True,
                    managerState := clearSelection manager (managerState w)\<rparr>)"
  using assms by (simp add: onKeyDown_def preventDefault_def Let_def)

lemma onKeyDown_a:
  assumes "refEl env = Some r" and "contains env r (target e)" and "ekey e = ''a''"
  shows "onKeyDown props manager delegate env e w
          = (if isCtrlKeyPressed env e \<and> selectionMode manager (managerState w) = Multiple
                \<and> disallowSelectAll props \<noteq> Some True
             then w\<lparr>defaultPrevented := True,
                    managerState := selectAll manager (managerState w)\<rparr>
             else w)"
  using assms by (simp add: onKeyDown_def preventDefault_def Let_def)

lemma onKeyDown_ArrowDown:
  assumes "refEl env = Some r" and "contains env r (target e)" and "ekey e = ''ArrowDown''"
  shows "onKeyDown props manager delegate env e w =
     (case getKeyBelow delegate of
        None \<Rightarrow> w
      | Some neighbour \<Rightarrow>
          w\<lparr>defaultPrevented := True,
            managerState := navigateToKey manager env e
              (accessSelectOnFocus props manager (managerState w))
              (orOppositeEnd (shouldFocusWrap props)
                (case focusedKey manager (managerState w) of
                   Some k \<Rightarrow> neighbour k
                 | None \<Rightarrow> callIfPresent (getFirstKey delegate) None None)
                (callIfPresent (getFirstKey delegate) (focusedKey manager (managerState w)) None))
              None (managerState w)\<rparr>)"
  using assms
  by (simp add: onKeyDown_def preventDefault_def orOppositeEnd_def Let_def split: option.split)

lemma onKeyDown_ArrowUp:
  assumes "refEl env = Some r" and "contains env r (target e)" and "ekey e = ''ArrowUp''"
  shows "onKeyDown props manager delegate env e w =
     (case getKeyAbove delegate of
        None \<Rightarrow> w
      | Some neighbour \<Rightarrow>
          w\<lparr>defaultPrevented := True,
            managerState := navigateToKey manager env e
              (accessSelectOnFocus props manager (managerState w))
              (orOppositeEnd (shouldFocusWrap props)
                (case focusedKey manager (managerState w) of
                   Some k \<Rightarrow> neighbour k
                 | None \<Rightarrow> callIfPresent (getLastKey delegate) None None)
                (callIfPresent (getLastKey delegate) (focusedKey manager (managerState w)) None))
              None (managerState w)\<rparr>)"
  using assms
  by (simp add: onKeyDown_def preventDefault_def orOppositeEnd_def Let_def split: option.split)

lemma onKeyDown_ArrowLeft:
  assumes "refEl env = Some r" and "contains env r (target e)" and "ekey e = ''ArrowLeft''"
  shows "onKeyDown props manager delegate env e w =
     (case getKeyLeftOf delegate of
        None \<Rightarrow> w
      | Some neighbour \<Rightarrow>
          w\<lparr>defaultPrevented := True,
            managerState := navigateToKey manager env e
              (accessSelectOnFocus props manager (managerState w))
              (case focusedKey manager (managerState w) of
                 Some k \<Rightarrow> neighbour k
               | None \<Rightarrow>
                   callIfPresent (if isRTL env then getFirstKey delegate else getLastKey delegate)
                     None None)
              (Some (if isRTL env then First else Last)) (managerState w)\<rparr>)"
  using assms
  by (simp add: onKeyDown_def preventDefault_def Let_def split: option.split)

lemma onKeyDown_ArrowRight:
  assumes "refEl env = Some r" and "contains env r (target e)" and "ekey e = ''ArrowRight''"
  shows "onKeyDown props manager delegate env e w =
     (case getKeyRightOf delegate of
        None \<Rightarrow> w
      | Some neighbour \<Rightarrow>
          w\<lparr>defaultPrevented := True,
            managerState := navigateToKey manager env e
              (accessSelectOnFocus props manager (managerState w))
              (case focusedKey manager (managerState w) of
                 Some k \<Rightarrow> neighbour k
               | None \<Rightarrow>
                   callIfPresent (if isRTL env then getLastKey delegate else getFirstKey delegate)
                     None None)
              (Some (if isRTL env then Last else First)) (managerState w)\<rparr>)"
  using assms
  by (simp add: onKeyDown_def preventDefault_def Let_def split: option.split)

lemma onKeyDown_PageDown:
  assumes "refEl env = Some r" and "contains env r (target e)" and "ekey e = ''PageDown''"
  shows "onKeyDown props manager delegate env e w =
     (case (getKeyPageBelow delegate, focusedKey manager (managerState w)) of
        (Some jump, Some k) \<Rightarrow>
          w\<lparr>defaultPrevented := True,
            managerState := navigateToKey manager env e
              (accessSelectOnFocus props manager (managerState w)) (jump k) None (managerState w)\<rparr>
      | _ \<Rightarrow> w)"
  using assms
  by (simp add: onKeyDown_def preventDefault_def Let_def split: option.split)

lemma onKeyDown_PageUp:
  assumes "refEl env = Some r" and "contains env r (target e)" and "ekey e = ''PageUp''"
  shows "onKeyDown props manager delegate env e w =
     (case (getKeyPageAbove delegate, focusedKey manager (managerState w)) of
        (Some jump, Some k) \<Rightarrow>
          w\<lparr>defaultPrevented := True,
            managerState := navigateToKey manager env e
              (accessSelectOnFocus props manager (managerState w)) (jump k) None (managerState w)\<rparr>
      | _ \<Rightarrow> w)"
  using assms
  by (simp add: onKeyDown_def preventDefault_def Let_def split: option.split)


lemma navigateToKey_None [simp]: "navigateToKey manager env e sof None hint s = s"
  by (simp add: navigateToKey_def)

lemma navigateToKey_tracksFocus:
  assumes "tracksFocus manager"
  shows "focusedKey manager (navigateToKey manager env e sof (Some k) hint s) = Some k"
  using assms by (simp add: tracksFocus_def navigateToKey_def Let_def)

lemma tracksFocus_recordingManager: "tracksFocus recordingManager"
  by (simp add: tracksFocus_def recordingManager_def)

lemma fruitKeys_eq: "fruitKeys = [''apple'', ''banana'', ''apricot'']"
  by (simp add: fruitKeys_def keys_def fruits_def apple_def banana_def apricot_def)

subsection \<open>Navigation\<close>

lemma onKeyDown_navigation:
  assumes "refEl env = Some r" and "contains env r (target e)"
    and "ekey e \<in> set navigationKeys"
  shows "onKeyDown props manager delegate env e w =
     (case delegateResolves delegate env (shouldFocusWrap props)
             (focusedKey manager (managerState w)) (ekey e) of
        None \<Rightarrow> w
      | Some (None, hint) \<Rightarrow> w\<lparr>defaultPrevented := True\<rparr>
      | Some (Some k, hint) \<Rightarrow>
          w\<lparr>defaultPrevented := True,
            managerState :=
              (let focusedOn = setFocusedKey manager k hint (managerState w)
               in if shiftKey e \<and> selectionMode manager focusedOn = Multiple
                  then extendSelection manager k focusedOn
                  else if truthy (accessSelectOnFocus props manager (managerState w))
                          \<and> \<not> isNonContiguousSelectionModifier env e
                  then replaceSelection manager k focusedOn
                  else focusedOn)\<rparr>)"
proof -
  have nav: "w\<lparr>defaultPrevented := True,
        managerState := navigateToKey manager env e sof nk hint (managerState w)\<rparr> =
     (case nk of
        None \<Rightarrow> w\<lparr>defaultPrevented := True\<rparr>
      | Some k \<Rightarrow>
          w\<lparr>defaultPrevented := True,
            managerState :=
              (let focusedOn = setFocusedKey manager k hint (managerState w)
               in if shiftKey e \<and> selectionMode manager focusedOn = Multiple
                  then extendSelection manager k focusedOn
                  else if truthy sof \<and> \<not> isNonContiguousSelectionModifier env e
                  then replaceSelection manager k focusedOn
                  else focusedOn)\<rparr>)" for sof nk hint
    by (cases nk) (simp_all add: navigateToKey_def)
  from assms(3) consider "ekey e = ''ArrowDown''" | "ekey e = ''ArrowUp''"
    | "ekey e = ''ArrowLeft''" | "ekey e = ''ArrowRight''"
    | "ekey e = ''PageUp''" | "ekey e = ''PageDown''"
    by (auto simp: navigationKeys_def)
  then show ?thesis
  proof cases
    case 1
    show ?thesis
      unfolding onKeyDown_ArrowDown [OF assms(1,2) 1] nav
      by (simp add: delegateResolves_def 1 split: option.split)
  next
    case 2
    show ?thesis
      unfolding onKeyDown_ArrowUp [OF assms(1,2) 2] nav
      by (simp add: delegateResolves_def 2 split: option.split)
  next
    case 3
    show ?thesis
      unfolding onKeyDown_ArrowLeft [OF assms(1,2) 3] nav
      by (simp add: delegateResolves_def 3 split: option.split)
  next
    case 4
    show ?thesis
      unfolding onKeyDown_ArrowRight [OF assms(1,2) 4] nav
      by (simp add: delegateResolves_def 4 split: option.split)
  next
    case 5
    show ?thesis
      unfolding onKeyDown_PageUp [OF assms(1,2) 5] nav
      by (simp add: delegateResolves_def 5 split: option.split)
  next
    case 6
    show ?thesis
      unfolding onKeyDown_PageDown [OF assms(1,2) 6] nav
      by (simp add: delegateResolves_def 6 split: option.split)
  qed
qed

text \<open>
  Claim C1. On a navigation keydown (ArrowDown, ArrowUp, ArrowLeft, ArrowRight, PageUp,
  PageDown) inside the collection, when the delegate resolves a key, the handler gives
  the key to \<open>setFocusedKey\<close>; then it calls \<open>extendSelection\<close> with it when Shift is held
  and the selection mode is multiple, and otherwise \<open>replaceSelection\<close> when
  \<open>selectOnFocus\<close> holds and the modifier for a selection that is not contiguous is not
  held, and otherwise nothing more. A manager that tracks the focus then has the key as
  its focused key. When the delegate resolves no key, wrapping included, no method of
  the manager is called.
\<close>

theorem navigation_policy:
  assumes "refEl env = Some r" and "contains env r (target e)"
    and "ekey e \<in> set navigationKeys"
  shows
    "onKeyDown props manager delegate env e w =
       (case delegateResolves delegate env (shouldFocusWrap props)
               (focusedKey manager (managerState w)) (ekey e) of
          None \<Rightarrow> w
        | Some (None, hint) \<Rightarrow> w\<lparr>defaultPrevented := True\<rparr>
        | Some (Some k, hint) \<Rightarrow>
            w\<lparr>defaultPrevented := True,
              managerState :=
                (let focusedOn = setFocusedKey manager k hint (managerState w)
                 in if shiftKey e \<and> selectionMode manager focusedOn = Multiple
                    then extendSelection manager k focusedOn
                    else if truthy (accessSelectOnFocus props manager (managerState w))
                            \<and> \<not> isNonContiguousSelectionModifier env e
                    then replaceSelection manager k focusedOn
                    else focusedOn)\<rparr>)
     \<and> (tracksFocus manager \<longrightarrow>
          (\<forall>k hint. delegateResolves delegate env (shouldFocusWrap props)
                       (focusedKey manager (managerState w)) (ekey e) = Some (Some k, hint) \<longrightarrow>
             focusedKey manager (managerState (onKeyDown props manager delegate env e w))
               = Some k))"
proof (intro conjI impI allI)
  show "onKeyDown props manager delegate env e w =
       (case delegateResolves delegate env (shouldFocusWrap props)
               (focusedKey manager (managerState w)) (ekey e) of
          None \<Rightarrow> w
        | Some (None, hint) \<Rightarrow> w\<lparr>defaultPrevented := True\<rparr>
        | Some (Some k, hint) \<Rightarrow>
            w\<lparr>defaultPrevented := True,
              managerState :=
                (let focusedOn = setFocusedKey manager k hint (managerState w)
                 in if shiftKey e \<and> selectionMode manager focusedOn = Multiple
                    then extendSelection manager k focusedOn
                    else if truthy (accessSelectOnFocus props manager (managerState w))
                            \<and> \<not> isNonContiguousSelectionModifier env e
                    then replaceSelection manager k focusedOn
                    else focusedOn)\<rparr>)"
    using assms by (rule onKeyDown_navigation)
next
  fix k hint
  assume tracks: "tracksFocus manager"
    and resolved: "delegateResolves delegate env (shouldFocusWrap props)
        (focusedKey manager (managerState w)) (ekey e) = Some (Some k, hint)"
  from tracks show "focusedKey manager (managerState (onKeyDown props manager delegate env e w))
      = Some k"
    unfolding onKeyDown_navigation [OF assms] resolved
    by (simp add: tracksFocus_def Let_def)
qed

theorem navigation_policy_witness:
  "refEl page = Some 1 \<and> contains page 1 10 \<and> ''ArrowDown'' \<in> set navigationKeys
   \<and> tracksFocus (recordingManager :: (string, string recorded) multipleSelectionManager)
   \<and> focusedKey recordingManager
        (managerState (onKeyDown noProps recordingManager (listDelegate fruitKeys) page
           ((keydown ''ArrowDown'' 10)\<lparr>shiftKey := True\<rparr>) (started Multiple (Some ''apple''))))
      = Some ''banana''
   \<and> calls (managerState (onKeyDown noProps recordingManager (listDelegate fruitKeys) page
        ((keydown ''ArrowDown'' 10)\<lparr>shiftKey := True\<rparr>) (started Multiple (Some ''apple''))))
      = [SetFocusedKey ''banana'' None, ExtendSelection ''banana'']
   \<and> calls (managerState (onKeyDown (noProps\<lparr>selectOnFocus := Some (Some True)\<rparr>)
        recordingManager (listDelegate fruitKeys) page
        (keydown ''ArrowDown'' 10) (started Multiple (Some ''apple''))))
      = [SetFocusedKey ''banana'' None, ReplaceSelection ''banana'']
   \<and> calls (managerState (onKeyDown (noProps\<lparr>selectOnFocus := Some (Some True)\<rparr>)
        recordingManager (listDelegate fruitKeys) page
        ((keydown ''ArrowDown'' 10)\<lparr>ctrlKey := True\<rparr>) (started Multiple (Some ''apple''))))
      = [SetFocusedKey ''banana'' None]
   \<and> onKeyDown (noProps\<lparr>selectOnFocus := Some (Some True)\<rparr>)
        recordingManager (listDelegate fruitKeys) page
        (keydown ''ArrowDown'' 10) (started Multiple (Some ''apricot''))
      = (started Multiple (Some ''apricot''))\<lparr>defaultPrevented := True\<rparr>"
proof -
  have inside: "refEl page = Some 1"
    "contains page 1 (target ((keydown ''ArrowDown'' 10)\<lparr>shiftKey := True\<rparr>))"
    "contains page 1 (target (keydown ''ArrowDown'' 10))"
    "contains page 1 (target ((keydown ''ArrowDown'' 10)\<lparr>ctrlKey := True\<rparr>))"
    by (simp_all add: page_def keydown_def)
  have nav: "ekey ((keydown ''ArrowDown'' 10)\<lparr>shiftKey := True\<rparr>) \<in> set navigationKeys"
    "ekey (keydown ''ArrowDown'' 10) \<in> set navigationKeys"
    "ekey ((keydown ''ArrowDown'' 10)\<lparr>ctrlKey := True\<rparr>) \<in> set navigationKeys"
    by (simp_all add: keydown_def navigationKeys_def)
  have below: "keyAfter fruitKeys ''apple'' = Some ''banana''"
    "keyAfter fruitKeys ''apricot'' = None"
    by (simp_all add: fruitKeys_eq)
  show ?thesis
    using inside(1,3) nav(2) tracksFocus_recordingManager [where ?'a = string]
      navigation_policy [OF inside(1,2) nav(1), of noProps recordingManager
        "listDelegate fruitKeys" "started Multiple (Some ''apple'')"]
      navigation_policy [OF inside(1,3) nav(2), of "noProps\<lparr>selectOnFocus := Some (Some True)\<rparr>"
        recordingManager "listDelegate fruitKeys" "started Multiple (Some ''apple'')"]
      navigation_policy [OF inside(1,4) nav(3), of "noProps\<lparr>selectOnFocus := Some (Some True)\<rparr>"
        recordingManager "listDelegate fruitKeys" "started Multiple (Some ''apple'')"]
      navigation_policy [OF inside(1,3) nav(2), of "noProps\<lparr>selectOnFocus := Some (Some True)\<rparr>"
        recordingManager "listDelegate fruitKeys" "started Multiple (Some ''apricot'')"]
    by (simp add: page_def keydown_def noProps_def started_def recordingManager_def
        listDelegate_def delegateResolves_def orOppositeEnd_def accessSelectOnFocus_def
        truthy_def below)
qed

text \<open>
  Claim C3. The focus is on a key below which the delegate has no key, and ArrowDown is
  pressed inside the collection. With \<open>shouldFocusWrap\<close> true the handler navigates to
  the key that the delegate's \<open>getFirstKey\<close> gives, and a manager that tracks the focus
  then has it as focused key; with \<open>shouldFocusWrap\<close> false or unset, the manager is left
  as it was and the focused key is the same. ArrowUp does the same with \<open>getKeyAbove\<close>
  and \<open>getLastKey\<close>.
\<close>

theorem focus_wrap:
  assumes "refEl env = Some r" and "contains env r (target e)"
    and "focusedKey manager (managerState w) = Some k"
  shows
    "(ekey e = ''ArrowDown'' \<and> getKeyBelow delegate = Some neighbour \<and> neighbour k = None \<longrightarrow>
        (truthy (shouldFocusWrap props) \<and> getFirstKey delegate = Some oppositeEnd
           \<and> oppositeEnd (Some k) None = Some k' \<longrightarrow>
           managerState (onKeyDown props manager delegate env e w)
             = navigateToKey manager env e (accessSelectOnFocus props manager (managerState w))
                 (Some k') None (managerState w)
           \<and> (tracksFocus manager \<longrightarrow>
                focusedKey manager (managerState (onKeyDown props manager delegate env e w))
                  = Some k'))
        \<and> (\<not> truthy (shouldFocusWrap props) \<longrightarrow>
             onKeyDown props manager delegate env e w = w\<lparr>defaultPrevented := True\<rparr>
             \<and> focusedKey manager (managerState (onKeyDown props manager delegate env e w))
                 = Some k))
     \<and> (ekey e = ''ArrowUp'' \<and> getKeyAbove delegate = Some neighbour \<and> neighbour k = None \<longrightarrow>
        (truthy (shouldFocusWrap props) \<and> getLastKey delegate = Some oppositeEnd
           \<and> oppositeEnd (Some k) None = Some k' \<longrightarrow>
           managerState (onKeyDown props manager delegate env e w)
             = navigateToKey manager env e (accessSelectOnFocus props manager (managerState w))
                 (Some k') None (managerState w)
           \<and> (tracksFocus manager \<longrightarrow>
                focusedKey manager (managerState (onKeyDown props manager delegate env e w))
                  = Some k'))
        \<and> (\<not> truthy (shouldFocusWrap props) \<longrightarrow>
             onKeyDown props manager delegate env e w = w\<lparr>defaultPrevented := True\<rparr>
             \<and> focusedKey manager (managerState (onKeyDown props manager delegate env e w))
                 = Some k))"
proof (intro conjI impI; elim conjE)
  assume down: "ekey e = ''ArrowDown''" "getKeyBelow delegate = Some neighbour" "neighbour k = None"
  note eq = onKeyDown_ArrowDown [OF assms(1,2) down(1), of props manager delegate w]
  {
    assume "truthy (shouldFocusWrap props)" "getFirstKey delegate = Some oppositeEnd"
      "oppositeEnd (Some k) None = Some k'"
    with down assms(3) eq
    show wrapped: "managerState (onKeyDown props manager delegate env e w)
        = navigateToKey manager env e (accessSelectOnFocus props manager (managerState w))
            (Some k') None (managerState w)"
      by (simp add: orOppositeEnd_def callIfPresent_def)
    assume "tracksFocus manager"
    then show "focusedKey manager (managerState (onKeyDown props manager delegate env e w)) = Some k'"
      unfolding wrapped by (rule navigateToKey_tracksFocus)
  }
  {
    assume "\<not> truthy (shouldFocusWrap props)"
    with down assms(3) eq
    show same: "onKeyDown props manager delegate env e w = w\<lparr>defaultPrevented := True\<rparr>"
      by (simp add: orOppositeEnd_def)
    show "focusedKey manager (managerState (onKeyDown props manager delegate env e w)) = Some k"
      unfolding same using assms(3) by simp
  }
next
  assume up: "ekey e = ''ArrowUp''" "getKeyAbove delegate = Some neighbour" "neighbour k = None"
  note eq = onKeyDown_ArrowUp [OF assms(1,2) up(1), of props manager delegate w]
  {
    assume "truthy (shouldFocusWrap props)" "getLastKey delegate = Some oppositeEnd"
      "oppositeEnd (Some k) None = Some k'"
    with up assms(3) eq
    show wrapped: "managerState (onKeyDown props manager delegate env e w)
        = navigateToKey manager env e (accessSelectOnFocus props manager (managerState w))
            (Some k') None (managerState w)"
      by (simp add: orOppositeEnd_def callIfPresent_def)
    assume "tracksFocus manager"
    then show "focusedKey manager (managerState (onKeyDown props manager delegate env e w)) = Some k'"
      unfolding wrapped by (rule navigateToKey_tracksFocus)
  }
  {
    assume "\<not> truthy (shouldFocusWrap props)"
    with up assms(3) eq
    show same: "onKeyDown props manager delegate env e w = w\<lparr>defaultPrevented := True\<rparr>"
      by (simp add: orOppositeEnd_def)
    show "focusedKey manager (managerState (onKeyDown props manager delegate env e w)) = Some k"
      unfolding same using assms(3) by simp
  }
qed

theorem focus_wrap_witness:
  "refEl page = Some 1 \<and> contains page 1 12
   \<and> focusedKey recordingManager (managerState (started Single (Some ''apricot''))) = Some ''apricot''
   \<and> getKeyBelow (listDelegate fruitKeys) = Some (keyAfter fruitKeys)
   \<and> keyAfter fruitKeys ''apricot'' = None
   \<and> tracksFocus (recordingManager :: (string, string recorded) multipleSelectionManager)
   \<and> focusedKey recordingManager (managerState
        (onKeyDown (noProps\<lparr>shouldFocusWrap := Some True\<rparr>) recordingManager
           (listDelegate fruitKeys) page (keydown ''ArrowDown'' 12)
           (started Single (Some ''apricot'')))) = Some ''apple''
   \<and> focusedKey recordingManager (managerState
        (onKeyDown (noProps\<lparr>shouldFocusWrap := Some False\<rparr>) recordingManager
           (listDelegate fruitKeys) page (keydown ''ArrowDown'' 12)
           (started Single (Some ''apricot'')))) = Some ''apricot''
   \<and> focusedKey recordingManager (managerState
        (onKeyDown (noProps\<lparr>shouldFocusWrap := Some True\<rparr>) recordingManager
           (listDelegate fruitKeys) page (keydown ''ArrowUp'' 12)
           (started Single (Some ''apple'')))) = Some ''apricot''"
proof -
  have inside: "refEl page = Some 1" "contains page 1 (target (keydown ''ArrowDown'' 12))"
    "contains page 1 (target (keydown ''ArrowUp'' 12))" "contains page 1 12"
    by (simp_all add: page_def keydown_def)
  have pressed: "ekey (keydown ''ArrowDown'' 12) = ''ArrowDown''"
    "ekey (keydown ''ArrowUp'' 12) = ''ArrowUp''"
    by (simp_all add: keydown_def)
  have wrap: "truthy (shouldFocusWrap (noProps\<lparr>shouldFocusWrap := Some True\<rparr>))"
    "\<not> truthy (shouldFocusWrap (noProps\<lparr>shouldFocusWrap := Some False\<rparr>))"
    by (simp_all add: truthy_def)
  have last: "focusedKey recordingManager (managerState (started Single (Some ''apricot'')))
      = Some ''apricot''"
    and first: "focusedKey recordingManager (managerState (started Single (Some ''apple'')))
      = Some ''apple''"
    by (simp_all add: recordingManager_def started_def)
  have delegate: "getKeyBelow (listDelegate fruitKeys) = Some (keyAfter fruitKeys)"
    "keyAfter fruitKeys ''apricot'' = None"
    "getKeyAbove (listDelegate fruitKeys) = Some (keyAfter (rev fruitKeys))"
    "keyAfter (rev fruitKeys) ''apple'' = None"
    "getFirstKey (listDelegate fruitKeys) = Some (\<lambda>fromKey ctrl. first fruitKeys)"
    "getLastKey (listDelegate fruitKeys) = Some (\<lambda>fromKey ctrl. first (rev fruitKeys))"
    "(\<lambda>fromKey ctrl. first fruitKeys) (Some ''apricot'') None = Some ''apple''"
    "(\<lambda>fromKey ctrl. first (rev fruitKeys)) (Some ''apple'') None = Some ''apricot''"
    by (simp_all add: listDelegate_def fruitKeys_eq first_def)
  have tracks: "tracksFocus (recordingManager :: (string, string recorded) multipleSelectionManager)"
    by (rule tracksFocus_recordingManager)
  have down: "focusedKey recordingManager (managerState
        (onKeyDown (noProps\<lparr>shouldFocusWrap := Some True\<rparr>) recordingManager
           (listDelegate fruitKeys) page (keydown ''ArrowDown'' 12)
           (started Single (Some ''apricot'')))) = Some ''apple''"
    using focus_wrap [OF inside(1,2) last, where neighbour = "keyAfter fruitKeys"
        and delegate = "listDelegate fruitKeys"
        and props = "noProps\<lparr>shouldFocusWrap := Some True\<rparr>"
        and oppositeEnd = "\<lambda>fromKey ctrl. first fruitKeys" and k' = "''apple''"]
      pressed(1) wrap(1) delegate(1,2,5,7) tracks
    by blast
  have stay: "focusedKey recordingManager (managerState
        (onKeyDown (noProps\<lparr>shouldFocusWrap := Some False\<rparr>) recordingManager
           (listDelegate fruitKeys) page (keydown ''ArrowDown'' 12)
           (started Single (Some ''apricot'')))) = Some ''apricot''"
    using focus_wrap [OF inside(1,2) last, where neighbour = "keyAfter fruitKeys"
        and delegate = "listDelegate fruitKeys"
        and props = "noProps\<lparr>shouldFocusWrap := Some False\<rparr>"
        and oppositeEnd = "\<lambda>fromKey ctrl. first fruitKeys" and k' = "''apple''"]
      pressed(1) wrap(2) delegate(1,2)
    by blast
  have up: "focusedKey recordingManager (managerState
        (onKeyDown (noProps\<lparr>shouldFocusWrap := Some True\<rparr>) recordingManager
           (listDelegate fruitKeys) page (keydown ''ArrowUp'' 12)
           (started Single (Some ''apple'')))) = Some ''apricot''"
    using focus_wrap [OF inside(1,3) first, where neighbour = "keyAfter (rev fruitKeys)"
        and delegate = "listDelegate fruitKeys"
        and props = "noProps\<lparr>shouldFocusWrap := Some True\<rparr>"
        and oppositeEnd = "\<lambda>fromKey ctrl. first (rev fruitKeys)" and k' = "''apricot''"]
      pressed(2) wrap(1) delegate(3,4,6,8) tracks
    by blast
  from inside(1,4) last delegate(1,2) tracks down stay up show ?thesis
    by blast
qed

subsection \<open>Operations that are not allowed\<close>

text \<open>
  Claim C5. On Escape inside the collection the handler calls \<open>clearSelection\<close> exactly
  when \<open>disallowEmptySelection\<close> is not truthy; on the key a with the Ctrl test passing
  it calls \<open>selectAll\<close> exactly when the selection mode is multiple and
  \<open>disallowSelectAll\<close> is not true. Otherwise the manager is left as it was, and the
  handler returns in every case.
\<close>

theorem suppressed_operations:
  assumes "refEl env = Some r" and "contains env r (target e)"
  shows
    "(ekey e = ''Escape'' \<longrightarrow>
        onKeyDown props manager delegate env e w
          = (if truthy (disallowEmptySelection props) then w\<lparr>defaultPrevented := True\<rparr>
             else w\<lparr>defaultPrevented := True,
                    managerState := clearSelection manager (managerState w)\<rparr>))
     \<and> (ekey e = ''a'' \<and> isCtrlKeyPressed env e \<longrightarrow>
        onKeyDown props manager delegate env e w
          = (if selectionMode manager (managerState w) = Multiple
                \<and> disallowSelectAll props \<noteq> Some True
             then w\<lparr>defaultPrevented := True,
                    managerState := selectAll manager (managerState w)\<rparr>
             else w))"
  using onKeyDown_Escape [OF assms, of props manager delegate w]
    onKeyDown_a [OF assms, of props manager delegate w]
  by simp

theorem suppressed_operations_witness:
  "refEl page = Some 1 \<and> contains page 1 10
   \<and> calls (managerState (onKeyDown noProps recordingManager (listDelegate fruitKeys) page
        (keydown ''Escape'' 10) (started Multiple None))) = [ClearSelection]
   \<and> onKeyDown (noProps\<lparr>disallowEmptySelection := Some True\<rparr>) recordingManager
        (listDelegate fruitKeys) page (keydown ''Escape'' 10) (started Multiple None)
      = (started Multiple None)\<lparr>defaultPrevented := True\<rparr>
   \<and> calls (managerState (onKeyDown noProps recordingManager (listDelegate fruitKeys) page
        ((keydown ''a'' 10)\<lparr>ctrlKey := True\<rparr>) (started Multiple None))) = [SelectAll]
   \<and> onKeyDown (noProps\<lparr>disallowSelectAll := Some True\<rparr>) recordingManager
        (listDelegate fruitKeys) page ((keydown ''a'' 10)\<lparr>ctrlKey := True\<rparr>) (started Multiple None)
      = started Multiple None
   \<and> onKeyDown noProps recordingManager
        (listDelegate fruitKeys) page ((keydown ''a'' 10)\<lparr>ctrlKey := True\<rparr>) (started Single None)
      = started Single None"
proof -
  have inside: "refEl page = Some 1" "contains page 1 (target (keydown ''Escape'' 10))"
    "contains page 1 (target ((keydown ''a'' 10)\<lparr>ctrlKey := True\<rparr>))"
    by (simp_all add: page_def keydown_def)
  show ?thesis
    using inside
      suppressed_operations [OF inside(1,2), of noProps recordingManager
        "listDelegate fruitKeys" "started Multiple None"]
      suppressed_operations [OF inside(1,2), of "noProps\<lparr>disallowEmptySelection := Some True\<rparr>"
        recordingManager "listDelegate fruitKeys" "started Multiple None"]
      suppressed_operations [OF inside(1,3), of noProps recordingManager
        "listDelegate fruitKeys" "started Multiple None"]
      suppressed_operations [OF inside(1,3), of "noProps\<lparr>disallowSelectAll := Some True\<rparr>"
        recordingManager "listDelegate fruitKeys" "started Multiple None"]
      suppressed_operations [OF inside(1,3), of noProps recordingManager
        "listDelegate fruitKeys" "started Single None"]
    by (simp add: page_def keydown_def noProps_def started_def recordingManager_def truthy_def)
qed

subsection \<open>Events from outside the collection\<close>

text \<open>
  Claim C10. An Alt+Tab keydown has its default prevented wherever its target is, since
  the handler does that before it looks at the target. Apart from that, a keydown whose
  target is not inside the collection element (or that finds no collection element)
  changes nothing: no state of the manager, no focus, no default prevented.
\<close>

theorem outside_the_collection:
  "(altKey e \<and> ekey e = ''Tab'' \<longrightarrow> defaultPrevented (onKeyDown props manager delegate env e w))
   \<and> (\<not> (case refEl env of None \<Rightarrow> False | Some r \<Rightarrow> contains env r (target e)) \<longrightarrow>
       onKeyDown props manager delegate env e w
         = (if altKey e \<and> ekey e = ''Tab'' then w\<lparr>defaultPrevented := True\<rparr> else w))"
  using onKeyDown_alt_Tab [of e props manager delegate env w]
    onKeyDown_not_inside [of env e props manager delegate w]
  by blast

theorem outside_the_collection_witness:
  "\<not> (case refEl page of None \<Rightarrow> False | Some r \<Rightarrow> contains page r 2)
   \<and> onKeyDown noProps recordingManager (listDelegate fruitKeys) page
        ((keydown ''Tab'' 2)\<lparr>altKey := True\<rparr>) (started Multiple (Some ''apple''))
      = (started Multiple (Some ''apple''))\<lparr>defaultPrevented := True\<rparr>
   \<and> onKeyDown noProps recordingManager (listDelegate fruitKeys) page
        (keydown ''Escape'' 2) (started Multiple (Some ''apple''))
      = started Multiple (Some ''apple'')"
  using outside_the_collection [of "(keydown ''Tab'' 2)\<lparr>altKey := True\<rparr>" noProps
      recordingManager "listDelegate fruitKeys" page "started Multiple (Some ''apple'')"]
    outside_the_collection [of "keydown ''Escape'' 2" noProps
      recordingManager "listDelegate fruitKeys" page "started Multiple (Some ''apple'')"]
  by (simp add: page_def keydown_def)

section \<open>Properties of the derived attributes\<close>

text \<open>
  Claim C6. Without virtual focus, \<open>tabIndex\<close> is 0 when the manager has no focused key
  and -1 when it has one; with virtual focus, \<open>tabIndex\<close> is left undefined whatever the
  focus is.
\<close>

theorem tab_index:
  "(\<not> truthy (shouldUseVirtualFocus props) \<and> focusedKey manager s = None \<longrightarrow>
      tabIndex (collectionProps props manager s) = Some 0)
   \<and> (\<not> truthy (shouldUseVirtualFocus props) \<and> focusedKey manager s \<noteq> None \<longrightarrow>
      tabIndex (collectionProps props manager s) = Some (- 1))
   \<and> (truthy (shouldUseVirtualFocus props) \<longrightarrow>
      tabIndex (collectionProps props manager s) = None)"
  by (simp add: collectionProps_def)

theorem tab_index_witness:
  "tabIndex (collectionProps noProps recordingManager (managerState (started Single None))) = Some 0
   \<and> tabIndex (collectionProps noProps recordingManager
        (managerState (started Single (Some ''apple'')))) = Some (- 1)
   \<and> tabIndex (collectionProps (noProps\<lparr>shouldUseVirtualFocus := Some True\<rparr>) recordingManager
        (managerState (started Single None))) = None"
  using tab_index [of noProps recordingManager "managerState (started Single None)"]
    tab_index [of noProps recordingManager "managerState (started Single (Some ''apple''))"]
    tab_index [of "noProps\<lparr>shouldUseVirtualFocus := Some True\<rparr>" recordingManager
      "managerState (started Single None)"]
  by (simp add: noProps_def recordingManager_def started_def truthy_def)

end
